theory Spec2Isabelle
  imports Main "HOL-Library.Word"
begin

unbundle bit_operations_syntax

section \<open>The book registry of \<open>src/app.js\<close>\<close>

subsection \<open>Values of a request body\<close>

text \<open>
  \<open>express.json()\<close> parses the request body, and the handlers destructure
  \<open>title\<close> and \<open>author\<close> from it. Each of the two is whatever JSON value the
  client sent under that key, or \<open>undefined\<close> when the key is missing. A number
  is an IEEE-754 double, kept here as its 64-bit pattern.
\<close>

datatype jsval =
    JUndefined
  | JNull
  | JBool bool
  | JNum "64 word"
  | JStr string
  | JArr "jsval list"
  | JObj "(string \<times> jsval) list"

text \<open>
  JavaScript's \<open>ToBoolean\<close>, which \<open>!x\<close> and \<open>x || y\<close> apply: \<open>undefined\<close>,
  \<open>null\<close>, \<open>false\<close>, \<open>+0\<close>, \<open>-0\<close>, \<open>NaN\<close> and the empty string are falsy,
  every other value (every array and object too) is truthy.
\<close>

definition num_falsy :: "64 word \<Rightarrow> bool" where
  "num_falsy w =
     (let m = w AND 0x7FFFFFFFFFFFFFFF
      in m = 0 \<or> 0x7FF0000000000000 < m)"

fun truthy :: "jsval \<Rightarrow> bool" where
  "truthy JUndefined = False"
| "truthy JNull = False"
| "truthy (JBool b) = b"
| "truthy (JNum w) = (\<not> num_falsy w)"
| "truthy (JStr s) = (s \<noteq> [])"
| "truthy (JArr _) = True"
| "truthy (JObj _) = True"

text \<open>\<open>a || b\<close>: the left operand when it is truthy, the right one otherwise.\<close>

definition js_or :: "jsval \<Rightarrow> jsval \<Rightarrow> jsval" where
  "js_or a b = (if truthy a then a else b)"

subsection \<open>Books, the registry and responses\<close>

record book =
  book_id :: string
  title :: jsval
  author :: jsval

text \<open>The initial value of the module variable \<open>books\<close>.\<close>

definition books_seed :: "book list" where
  "books_seed =
     [\<lparr>book_id = ''1'', title = JStr ''The Hitchhiker's Guide to the Galaxy'',
        author = JStr ''Douglas Adams''\<rparr>,
      \<lparr>book_id = ''2'', title = JStr ''Pride and Prejudice'', author = JStr ''Jane Austen''\<rparr>,
      \<lparr>book_id = ''3'', title = JStr ''1984'', author = JStr ''George Orwell''\<rparr>]"

text \<open>
  What a handler sends: the status (200 unless \<open>res.status\<close> sets it) and the body
  given to \<open>res.json\<close>, or no body after \<open>res.status(204).send()\<close>.
\<close>

datatype body =
    Json_book book
  | Json_books "book list"
  | Json_message string
  | No_body

record response =
  status :: nat
  body :: body

definition not_found :: response where
  "not_found = \<lparr>status = 404, body = Json_message ''Book not found''\<rparr>"

subsection \<open>Array helpers\<close>

text \<open>
  \<open>Array.prototype.find\<close> is \<^const>\<open>List.find\<close> (\<open>undefined\<close> is \<open>None\<close>).
  \<open>Array.prototype.findIndex\<close> gives the first index whose element passes the
  test, and \<open>-1\<close> when none does.
\<close>

fun findIndex :: "('a \<Rightarrow> bool) \<Rightarrow> 'a list \<Rightarrow> int" where
  "findIndex P [] = -1"
| "findIndex P (x # xs) =
     (if P x then 0
      else (let r = findIndex P xs in if r = -1 then -1 else r + 1))"

subsection \<open>\<open>generateUniqueId\<close>\<close>

text \<open>
  \<open>Math.random().toString(36).substr(2, 9)\<close>. The random draw is the environment's;
  the argument is the text \<open>Math.random().toString(36)\<close> came to (\<open>0.i\<close> for the
  draw 0.5), of which \<open>substr(2, 9)\<close> keeps at most nine characters from index 2 on.
\<close>

definition generateUniqueId :: "string \<Rightarrow> string" where
  "generateUniqueId random36 = take 9 (drop 2 random36)"

subsection \<open>The handlers\<close>

text \<open>
  Each handler is a function of its request data and the registry, and returns the
  response together with the registry it leaves behind.
\<close>

definition list_books :: "book list \<Rightarrow> response \<times> book list" where
  "list_books books = (\<lparr>status = 200, body = Json_books books\<rparr>, books)"

definition get_book :: "string \<Rightarrow> book list \<Rightarrow> response \<times> book list" where
  "get_book i books =
     (case List.find (\<lambda>b. book_id b = i) books of
        Some bk \<Rightarrow> (\<lparr>status = 200, body = Json_book bk\<rparr>, books)
      | None \<Rightarrow> (not_found, books))"

definition post_book :: "string \<Rightarrow> jsval \<Rightarrow> jsval \<Rightarrow> book list \<Rightarrow> response \<times> book list" where
  "post_book random36 ttl auth books =
     (if \<not> truthy ttl \<or> \<not> truthy auth
      then (\<lparr>status = 400, body = Json_message ''Title and Author are required''\<rparr>, books)
      else (let newBook = \<lparr>book_id = generateUniqueId random36, title = ttl, author = auth\<rparr>
            in (\<lparr>status = 201, body = Json_book newBook\<rparr>, books @ [newBook])))"

definition put_book :: "string \<Rightarrow> jsval \<Rightarrow> jsval \<Rightarrow> book list \<Rightarrow> response \<times> book list" where
  "put_book i ttl auth books =
     (let bookIndex = findIndex (\<lambda>b. book_id b = i) books
      in if bookIndex \<noteq> -1
         then (let k = nat bookIndex;
                   books1 = books[k := (books ! k)\<lparr>title := js_or ttl (title (books ! k))\<rparr>];
                   books2 = books1[k := (books1 ! k)\<lparr>author := js_or auth (author (books1 ! k))\<rparr>]
               in (\<lparr>status = 200, body = Json_book (books2 ! k)\<rparr>, books2))
         else (not_found, books))"

definition delete_book :: "string \<Rightarrow> book list \<Rightarrow> response \<times> book list" where
  "delete_book i books =
     (let initialLength = length books;
          books' = filter (\<lambda>bk. book_id bk \<noteq> i) books
      in if length books' < initialLength
         then (\<lparr>status = 204, body = No_body\<rparr>, books')
         else (not_found, books'))"

subsection \<open>Requests and runs\<close>

datatype request =
    List_books
  | Get_book string
  | Post_book string jsval jsval
  | Put_book string jsval jsval
  | Delete_book string

fun handle :: "request \<Rightarrow> book list \<Rightarrow> response \<times> book list" where
  "handle List_books books = list_books books"
| "handle (Get_book i) books = get_book i books"
| "handle (Post_book random36 ttl auth) books = post_book random36 ttl auth books"
| "handle (Put_book i ttl auth) books = put_book i ttl auth books"
| "handle (Delete_book i) books = delete_book i books"

text \<open>The registry after a sequence of requests, served one after the other.\<close>

fun run :: "request list \<Rightarrow> book list \<Rightarrow> book list" where
  "run [] books = books"
| "run (r # rs) books = run rs (snd (handle r books))"

text \<open>
  A run in which the random draws never repeat an id: each \<open>POST /books\<close> that
  passes validation draws an id that no record of the registry carries at that moment.
\<close>

fun ids_fresh :: "request list \<Rightarrow> book list \<Rightarrow> bool" where
  "ids_fresh [] books = True"
| "ids_fresh (Post_book random36 ttl auth # rs) books =
     ((truthy ttl \<and> truthy auth \<longrightarrow> generateUniqueId random36 \<notin> set (map book_id books)) \<and>
      ids_fresh rs (snd (post_book random36 ttl auth books)))"
| "ids_fresh (r # rs) books = ids_fresh rs (snd (handle r books))"

section \<open>Properties\<close>

subsection \<open>Helper facts\<close>

lemma findIndex_lower: "-1 \<le> findIndex P xs"
  by (induction xs) (auto simp: Let_def)

lemma findIndex_ge: "findIndex P xs \<noteq> -1 \<Longrightarrow> 0 \<le> findIndex P xs"
  using findIndex_lower [of P xs] by arith

lemma findIndex_none: "findIndex P xs = -1 \<longleftrightarrow> (\<forall>x \<in> set xs. \<not> P x)"
proof (induction xs)
  case Nil
  then show ?case by simp
next
  case (Cons x xs)
  from findIndex_lower [of P xs] have "findIndex P xs + 1 \<noteq> -1" by arith
  with Cons show ?case by (auto simp: Let_def)
qed

lemma findIndex_first:
  "findIndex P xs \<noteq> -1 \<Longrightarrow>
     nat (findIndex P xs) < length xs \<and> P (xs ! nat (findIndex P xs)) \<and>
     (\<forall>j < nat (findIndex P xs). \<not> P (xs ! j))"
proof (induction xs)
  case Nil
  then show ?case by simp
next
  case (Cons x xs)
  show ?case
  proof (cases "P x")
    case True
    then show ?thesis by simp
  next
    case False
    with Cons.prems have ne: "findIndex P xs \<noteq> -1"
      by (auto simp: Let_def split: if_splits)
    from findIndex_ge [OF ne] have ge: "0 \<le> findIndex P xs" .
    from False ne have eq: "findIndex P (x # xs) = findIndex P xs + 1"
      by (simp add: Let_def)
    from ge have n: "nat (findIndex P xs + 1) = Suc (nat (findIndex P xs))"
      by simp
    from Cons.IH [OF ne] False show ?thesis
      unfolding eq n by (auto simp: less_Suc_eq_0_disj)
  qed
qed

lemma map_update_same:
  "k < length xs \<Longrightarrow> f y = f (xs ! k) \<Longrightarrow> map f (xs[k := y]) = map f xs"
  by (simp add: list_eq_iff_nth_eq nth_list_update)

lemma put_book_missing:
  assumes "\<forall>b \<in> set books. book_id b \<noteq> i"
  shows "put_book i ttl auth books = (not_found, books)"
proof -
  from assms have "findIndex (\<lambda>b. book_id b = i) books = -1"
    by (simp add: findIndex_none)
  then show ?thesis by (simp add: put_book_def)
qed

lemma put_book_found:
  assumes "\<exists>b \<in> set books. book_id b = i"
  obtains k where "k < length books" and "book_id (books ! k) = i"
    and "\<forall>j < k. book_id (books ! j) \<noteq> i"
    and "put_book i ttl auth books =
          (\<lparr>status = 200,
             body = Json_book ((books ! k)\<lparr>title := js_or ttl (title (books ! k)),
                                          author := js_or auth (author (books ! k))\<rparr>)\<rparr>,
           books[k := (books ! k)\<lparr>title := js_or ttl (title (books ! k)),
                                  author := js_or auth (author (books ! k))\<rparr>])"
proof -
  let ?n = "findIndex (\<lambda>b. book_id b = i) books"
  from assms have ne: "?n \<noteq> -1"
    by (simp add: findIndex_none)
  from findIndex_first [OF ne]
  have k: "nat ?n < length books" "book_id (books ! nat ?n) = i"
    "\<forall>j < nat ?n. book_id (books ! j) \<noteq> i"
    by simp_all
  from ne k(1) have "put_book i ttl auth books =
          (\<lparr>status = 200,
             body = Json_book ((books ! nat ?n)\<lparr>title := js_or ttl (title (books ! nat ?n)),
                                          author := js_or auth (author (books ! nat ?n))\<rparr>)\<rparr>,
           books[nat ?n := (books ! nat ?n)\<lparr>title := js_or ttl (title (books ! nat ?n)),
                                  author := js_or auth (author (books ! nat ?n))\<rparr>])"
    by (simp add: put_book_def Let_def)
  with k that show thesis by blast
qed

lemma find_snoc:
  "\<forall>x \<in> set xs. \<not> P x \<Longrightarrow> P y \<Longrightarrow> List.find P (xs @ [y]) = Some y"
  by (induction xs) auto

lemma delete_book_eq:
  "delete_book i books =
     (if \<exists>b \<in> set books. book_id b = i
      then (\<lparr>status = 204, body = No_body\<rparr>, filter (\<lambda>bk. book_id bk \<noteq> i) books)
      else (not_found, books))"
proof (cases "\<exists>b \<in> set books. book_id b = i")
  case True
  then have "length (filter (\<lambda>bk. book_id bk \<noteq> i) books) < length books"
    by (auto intro: length_filter_less)
  with True show ?thesis by (simp add: delete_book_def Let_def)
next
  case False
  then have "filter (\<lambda>bk. book_id bk \<noteq> i) books = books"
    by (simp add: filter_id_conv)
  with False show ?thesis by (simp add: delete_book_def Let_def)
qed

lemma length_filter_split:
  "length (filter (\<lambda>x. \<not> P x) xs) + length (filter P xs) = length xs"
  by (induction xs) auto

lemma distinct_count_one:
  "distinct (map f xs) \<Longrightarrow> x \<in> set xs \<Longrightarrow> length (filter (\<lambda>y. f y = f x) xs) = 1"
proof (induction xs)
  case Nil
  then show ?case by simp
next
  case (Cons a xs)
  show ?case
  proof (cases "f a = f x")
    case True
    from Cons.prems(1) have "f a \<notin> f ` set xs" by simp
    with True have "\<forall>y \<in> set xs. f y \<noteq> f x" by (metis imageI)
    then have "filter (\<lambda>y. f y = f x) xs = []" by (simp add: filter_empty_conv)
    with True show ?thesis by simp
  next
    case False
    with Cons show ?thesis by auto
  qed
qed

lemma get_book_first:
  assumes "k < length books" and "book_id (books ! k) = i"
    and "\<forall>j < k. book_id (books ! j) \<noteq> i"
  shows "get_book i books = (\<lparr>status = 200, body = Json_book (books ! k)\<rparr>, books)"
proof -
  from assms have "List.find (\<lambda>b. book_id b = i) books = Some (books ! k)"
    unfolding find_Some_iff by blast
  then show ?thesis by (simp add: get_book_def)
qed

lemma post_book_snd:
  "snd (post_book random36 ttl auth books) =
     (if truthy ttl \<and> truthy auth
      then books @ [\<lparr>book_id = generateUniqueId random36, title = ttl, author = auth\<rparr>]
      else books)"
  by (simp add: post_book_def Let_def)

lemma put_book_snd:
  obtains "snd (put_book i ttl auth books) = books"
  | k where "k < length books"
      and "snd (put_book i ttl auth books) =
             books[k := (books ! k)\<lparr>title := js_or ttl (title (books ! k)),
                                    author := js_or auth (author (books ! k))\<rparr>]"
proof (cases "\<exists>b \<in> set books. book_id b = i")
  case True
  then obtain k where "k < length books"
    and "put_book i ttl auth books =
          (\<lparr>status = 200,
             body = Json_book ((books ! k)\<lparr>title := js_or ttl (title (books ! k)),
                                          author := js_or auth (author (books ! k))\<rparr>)\<rparr>,
           books[k := (books ! k)\<lparr>title := js_or ttl (title (books ! k)),
                                  author := js_or auth (author (books ! k))\<rparr>])"
    by (rule put_book_found)
  then show thesis using that(2) by simp
next
  case False
  then have "\<forall>b \<in> set books. book_id b \<noteq> i" by simp
  from put_book_missing [OF this] show thesis using that(1) by simp
qed

lemma handle_keeps_truthy:
  assumes inv: "\<forall>b \<in> set books. truthy (title b) \<and> truthy (author b)"
  shows "\<forall>b \<in> set (snd (handle r books)). truthy (title b) \<and> truthy (author b)"
proof (cases r)
  case List_books
  with inv show ?thesis by (simp add: list_books_def)
next
  case (Get_book i)
  with inv show ?thesis by (simp add: get_book_def split: option.splits)
next
  case (Post_book random36 ttl auth)
  with inv show ?thesis by (simp add: post_book_snd)
next
  case (Put_book i ttl auth)
  show ?thesis
  proof (rule put_book_snd [of i ttl auth books])
    assume "snd (put_book i ttl auth books) = books"
    with inv Put_book show ?thesis by simp
  next
    fix k
    let ?b = "(books ! k)\<lparr>title := js_or ttl (title (books ! k)),
                           author := js_or auth (author (books ! k))\<rparr>"
    assume k: "k < length books" and eq: "snd (put_book i ttl auth books) = books[k := ?b]"
    from k inv have "truthy (title (books ! k))" "truthy (author (books ! k))"
      by simp_all
    then have new: "truthy (title ?b) \<and> truthy (author ?b)"
      by (simp add: js_or_def)
    have "set (books[k := ?b]) \<subseteq> insert ?b (set books)"
      by (rule set_update_subset_insert)
    with inv new have "\<forall>b \<in> set (books[k := ?b]). truthy (title b) \<and> truthy (author b)"
      by blast
    with eq Put_book show ?thesis by simp
  qed
next
  case (Delete_book i)
  with inv show ?thesis by (simp add: delete_book_eq)
qed

lemma handle_keeps_distinct:
  assumes d: "distinct (map book_id books)"
    and fresh: "\<And>random36 ttl auth. r = Post_book random36 ttl auth \<Longrightarrow>
       truthy ttl \<and> truthy auth \<Longrightarrow> generateUniqueId random36 \<notin> set (map book_id books)"
  shows "distinct (map book_id (snd (handle r books)))"
proof (cases r)
  case List_books
  with d show ?thesis by (simp add: list_books_def)
next
  case (Get_book i)
  with d show ?thesis by (simp add: get_book_def split: option.splits)
next
  case (Post_book random36 ttl auth)
  with d fresh [OF Post_book] show ?thesis by (simp add: post_book_snd)
next
  case (Put_book i ttl auth)
  show ?thesis
  proof (rule put_book_snd [of i ttl auth books])
    assume "snd (put_book i ttl auth books) = books"
    with d Put_book show ?thesis by simp
  next
    fix k
    let ?b = "(books ! k)\<lparr>title := js_or ttl (title (books ! k)),
                           author := js_or auth (author (books ! k))\<rparr>"
    assume k: "k < length books" and eq: "snd (put_book i ttl auth books) = books[k := ?b]"
    from k have "map book_id (books[k := ?b]) = map book_id books"
      by (simp add: map_update_same)
    with d eq Put_book show ?thesis by simp
  qed
next
  case (Delete_book i)
  with d show ?thesis by (simp add: delete_book_eq distinct_map_filter)
qed

lemma run_keeps_truthy:
  "\<forall>b \<in> set books. truthy (title b) \<and> truthy (author b) \<Longrightarrow>
   \<forall>b \<in> set (run rs books). truthy (title b) \<and> truthy (author b)"
proof (induction rs arbitrary: books)
  case Nil
  then show ?case by simp
next
  case (Cons r rs)
  from handle_keeps_truthy [OF Cons.prems]
  have "\<forall>b \<in> set (snd (handle r books)). truthy (title b) \<and> truthy (author b)" .
  from Cons.IH [OF this] show ?case by simp
qed

lemma run_keeps_distinct:
  "ids_fresh rs books \<Longrightarrow> distinct (map book_id books) \<Longrightarrow>
   distinct (map book_id (run rs books))"
proof (induction rs arbitrary: books)
  case Nil
  then show ?case by simp
next
  case (Cons r rs)
  from Cons.prems(1) have rest: "ids_fresh rs (snd (handle r books))"
    by (cases r) simp_all
  have d: "distinct (map book_id (snd (handle r books)))"
  proof (rule handle_keeps_distinct [OF Cons.prems(2)])
    fix random36 ttl auth
    assume "r = Post_book random36 ttl auth" and "truthy ttl \<and> truthy auth"
    with Cons.prems(1) show "generateUniqueId random36 \<notin> set (map book_id books)"
      by simp
  qed
  from Cons.IH [OF rest d] show ?case by simp
qed

subsection \<open>Reading one book\<close>

text \<open>
  Claim C7. \<open>GET /books/:id\<close> leaves the registry as it was. When some record
  carries the requested id, the answer is status 200 with a record of the registry
  whose id is the requested one; the answer is status 404 with the message
  \<open>Book not found\<close> exactly when no record carries that id.
\<close>

theorem get_book_spec:
  "snd (get_book i books) = books \<and>
   ((\<exists>b \<in> set books. book_id b = i) \<longrightarrow>
      (\<exists>b \<in> set books. book_id b = i \<and>
         fst (get_book i books) = \<lparr>status = 200, body = Json_book b\<rparr>)) \<and>
   (fst (get_book i books) = \<lparr>status = 404, body = Json_message ''Book not found''\<rparr>
      \<longleftrightarrow> \<not> (\<exists>b \<in> set books. book_id b = i))"
proof (cases "List.find (\<lambda>b. book_id b = i) books")
  case None
  then have "\<forall>b \<in> set books. book_id b \<noteq> i"
    by (simp add: find_None_iff)
  with None show ?thesis
    by (simp add: get_book_def not_found_def)
next
  case (Some bk)
  then have "bk \<in> set books" "book_id bk = i"
    by (auto simp: find_Some_iff)
  with Some show ?thesis
    by (auto simp: get_book_def)
qed

theorem get_book_spec_witness:
  "(\<exists>b \<in> set books_seed. book_id b = ''2'') \<and>
   (\<exists>b \<in> set books_seed. book_id b = ''2'' \<and>
      fst (get_book ''2'' books_seed) = \<lparr>status = 200, body = Json_book b\<rparr>) \<and>
   \<not> (\<exists>b \<in> set books_seed. book_id b = ''7'') \<and>
   fst (get_book ''7'' books_seed) = \<lparr>status = 404, body = Json_message ''Book not found''\<rparr>"
proof -
  have h: "\<exists>b \<in> set books_seed. book_id b = ''2''"
    by (simp add: books_seed_def)
  have n: "\<not> (\<exists>b \<in> set books_seed. book_id b = ''7'')"
    by (simp add: books_seed_def)
  from get_book_spec [of "''2''" books_seed] h n get_book_spec [of "''7''" books_seed]
  show ?thesis by blast
qed

subsection \<open>Deleting, then reading\<close>

text \<open>
  Claim C6. For every registry and every id: when \<open>DELETE /books/:id\<close> answers
  204 with no body, \<open>GET /books/:id\<close> on the registry it leaves behind answers
  404 \<open>Book not found\<close>.
\<close>

theorem delete_then_get:
  "fst (delete_book i books) = \<lparr>status = 204, body = No_body\<rparr> \<Longrightarrow>
   fst (get_book i (snd (delete_book i books))) =
     \<lparr>status = 404, body = Json_message ''Book not found''\<rparr>"
proof -
  have "List.find (\<lambda>b. book_id b = i) (filter (\<lambda>bk. book_id bk \<noteq> i) books) = None"
    by (simp add: find_None_iff)
  then show ?thesis
    by (simp add: delete_book_def get_book_def not_found_def Let_def)
qed

theorem delete_then_get_witness:
  "fst (delete_book ''3'' books_seed) = \<lparr>status = 204, body = No_body\<rparr> \<and>
   fst (get_book ''3'' (snd (delete_book ''3'' books_seed))) =
     \<lparr>status = 404, body = Json_message ''Book not found''\<rparr>"
proof -
  have h: "fst (delete_book ''3'' books_seed) = \<lparr>status = 204, body = No_body\<rparr>"
    by (simp add: delete_book_def books_seed_def)
  from h delete_then_get [OF h] show ?thesis by simp
qed

subsection \<open>Creating a book\<close>

text \<open>
  Claim C4. When the title or the author of a \<open>POST /books\<close> body is missing
  (\<open>undefined\<close>), \<open>null\<close> or the empty string, the answer is status 400 with
  the message \<open>Title and Author are required\<close>, and the registry is the one
  before the request, so it has not grown.
\<close>

theorem post_book_invalid:
  "ttl \<in> {JUndefined, JNull, JStr ''''} \<or> auth \<in> {JUndefined, JNull, JStr ''''} \<Longrightarrow>
   post_book random36 ttl auth books =
     (\<lparr>status = 400, body = Json_message ''Title and Author are required''\<rparr>, books)"
  by (auto simp: post_book_def)

theorem post_book_invalid_witness:
  "JStr '''' \<in> {JUndefined, JNull, JStr ''''} \<and>
   post_book ''0.i'' (JStr '''') (JStr ''Herbert'') books_seed =
     (\<lparr>status = 400, body = Json_message ''Title and Author are required''\<rparr>, books_seed) \<and>
   post_book ''0.i'' (JStr ''Dune'') JUndefined books_seed =
     (\<lparr>status = 400, body = Json_message ''Title and Author are required''\<rparr>, books_seed)"
proof -
  have h: "JStr '''' \<in> {JUndefined, JNull, JStr ''''} \<or> JStr ''Herbert'' \<in> {JUndefined, JNull, JStr ''''}"
    by simp
  have g: "JStr ''Dune'' \<in> {JUndefined, JNull, JStr ''''} \<or> JUndefined \<in> {JUndefined, JNull, JStr ''''}"
    by simp
  from post_book_invalid [OF h] post_book_invalid [OF g] show ?thesis by simp
qed

text \<open>
  Claim C8. For a non-empty title and a non-empty author, \<open>POST /books\<close> answers
  201 with the new book, whose id is the one \<open>generateUniqueId\<close> produced and
  whose title and author are the given ones; the registry afterwards is the old one
  with that book added at its end, so it is longer by exactly one and its first
  records are the old records in the old order.
\<close>

theorem post_book_appends:
  "t \<noteq> [] \<Longrightarrow> a \<noteq> [] \<Longrightarrow>
   post_book random36 (JStr t) (JStr a) books =
     (\<lparr>status = 201,
        body = Json_book \<lparr>book_id = generateUniqueId random36, title = JStr t, author = JStr a\<rparr>\<rparr>,
      books @ [\<lparr>book_id = generateUniqueId random36, title = JStr t, author = JStr a\<rparr>]) \<and>
   length (snd (post_book random36 (JStr t) (JStr a) books)) = length books + 1 \<and>
   take (length books) (snd (post_book random36 (JStr t) (JStr a) books)) = books"
  by (simp add: post_book_def Let_def)

theorem post_book_appends_witness:
  "''Dune'' \<noteq> [] \<and> ''Herbert'' \<noteq> [] \<and>
   post_book ''0.4fzyo82mvyr'' (JStr ''Dune'') (JStr ''Herbert'') books_seed =
     (\<lparr>status = 201,
        body = Json_book \<lparr>book_id = ''4fzyo82mv'', title = JStr ''Dune'', author = JStr ''Herbert''\<rparr>\<rparr>,
      books_seed @ [\<lparr>book_id = ''4fzyo82mv'', title = JStr ''Dune'', author = JStr ''Herbert''\<rparr>])"
proof -
  have t: "''Dune'' \<noteq> []" and a: "''Herbert'' \<noteq> []"
    by simp_all
  from post_book_appends [OF t a, of "''0.4fzyo82mvyr''" books_seed] show ?thesis
    by (simp add: generateUniqueId_def)
qed

subsection \<open>Updating a book\<close>

text \<open>
  Claim C2. \<open>PUT /books/:id\<close> answers 404 \<open>Book not found\<close> and leaves the
  registry alone when no record carries the id. Otherwise it answers 200 with the
  updated record, which replaces the stored one at its position: its title is the
  supplied title when that is truthy (a non-empty string is) and the stored title
  otherwise (so when the title is omitted or the empty string), and likewise for the
  author. In particular a request with a title and no author keeps the stored author.
\<close>

theorem put_book_spec:
  "((\<forall>b \<in> set books. book_id b \<noteq> i) \<longrightarrow>
      put_book i ttl auth books =
        (\<lparr>status = 404, body = Json_message ''Book not found''\<rparr>, books)) \<and>
   ((\<exists>b \<in> set books. book_id b = i) \<longrightarrow>
      (\<exists>k b'. k < length books \<and> book_id (books ! k) = i \<and>
         put_book i ttl auth books = (\<lparr>status = 200, body = Json_book b'\<rparr>, books[k := b']) \<and>
         book_id b' = i \<and>
         title b' = (if truthy ttl then ttl else title (books ! k)) \<and>
         author b' = (if truthy auth then auth else author (books ! k)) \<and>
         (\<forall>x. ttl = JStr x \<and> x \<noteq> [] \<longrightarrow> title b' = JStr x) \<and>
         (\<forall>y. auth = JStr y \<and> y \<noteq> [] \<longrightarrow> author b' = JStr y) \<and>
         (ttl = JUndefined \<or> ttl = JStr [] \<longrightarrow> title b' = title (books ! k)) \<and>
         (auth = JUndefined \<or> auth = JStr [] \<longrightarrow> author b' = author (books ! k))))"
proof (intro conjI impI)
  assume "\<forall>b \<in> set books. book_id b \<noteq> i"
  from put_book_missing [OF this]
  show "put_book i ttl auth books =
        (\<lparr>status = 404, body = Json_message ''Book not found''\<rparr>, books)"
    by (simp add: not_found_def)
next
  assume "\<exists>b \<in> set books. book_id b = i"
  then obtain k where k: "k < length books" "book_id (books ! k) = i"
    and put: "put_book i ttl auth books =
          (\<lparr>status = 200,
             body = Json_book ((books ! k)\<lparr>title := js_or ttl (title (books ! k)),
                                          author := js_or auth (author (books ! k))\<rparr>)\<rparr>,
           books[k := (books ! k)\<lparr>title := js_or ttl (title (books ! k)),
                                  author := js_or auth (author (books ! k))\<rparr>])"
    by (rule put_book_found)
  let ?b = "(books ! k)\<lparr>title := js_or ttl (title (books ! k)),
                         author := js_or auth (author (books ! k))\<rparr>"
  have "book_id ?b = i" using k by simp
  moreover have "title ?b = (if truthy ttl then ttl else title (books ! k))"
    by (simp add: js_or_def)
  moreover have "author ?b = (if truthy auth then auth else author (books ! k))"
    by (simp add: js_or_def)
  moreover have "\<forall>x. ttl = JStr x \<and> x \<noteq> [] \<longrightarrow> title ?b = JStr x"
    by (simp add: js_or_def)
  moreover have "\<forall>y. auth = JStr y \<and> y \<noteq> [] \<longrightarrow> author ?b = JStr y"
    by (simp add: js_or_def)
  moreover have "ttl = JUndefined \<or> ttl = JStr [] \<longrightarrow> title ?b = title (books ! k)"
    by (auto simp: js_or_def)
  moreover have "auth = JUndefined \<or> auth = JStr [] \<longrightarrow> author ?b = author (books ! k)"
    by (auto simp: js_or_def)
  ultimately show "\<exists>k b'. k < length books \<and> book_id (books ! k) = i \<and>
         put_book i ttl auth books = (\<lparr>status = 200, body = Json_book b'\<rparr>, books[k := b']) \<and>
         book_id b' = i \<and>
         title b' = (if truthy ttl then ttl else title (books ! k)) \<and>
         author b' = (if truthy auth then auth else author (books ! k)) \<and>
         (\<forall>x. ttl = JStr x \<and> x \<noteq> [] \<longrightarrow> title b' = JStr x) \<and>
         (\<forall>y. auth = JStr y \<and> y \<noteq> [] \<longrightarrow> author b' = JStr y) \<and>
         (ttl = JUndefined \<or> ttl = JStr [] \<longrightarrow> title b' = title (books ! k)) \<and>
         (auth = JUndefined \<or> auth = JStr [] \<longrightarrow> author b' = author (books ! k))"
    using k put by blast
qed

theorem put_book_spec_witness:
  "(\<exists>b \<in> set books_seed. book_id b = ''2'') \<and>
   (\<exists>k b'. k < length books_seed \<and> book_id (books_seed ! k) = ''2'' \<and>
      put_book ''2'' (JStr ''P&P Rev.'') JUndefined books_seed =
        (\<lparr>status = 200, body = Json_book b'\<rparr>, books_seed[k := b']) \<and>
      title b' = JStr ''P&P Rev.'' \<and> author b' = author (books_seed ! k)) \<and>
   \<not> (\<exists>b \<in> set books_seed. book_id b = ''7'') \<and>
   put_book ''7'' (JStr ''P&P Rev.'') JUndefined books_seed =
     (\<lparr>status = 404, body = Json_message ''Book not found''\<rparr>, books_seed)"
proof -
  have h: "\<exists>b \<in> set books_seed. book_id b = ''2''"
    by (simp add: books_seed_def)
  have n: "\<forall>b \<in> set books_seed. book_id b \<noteq> ''7''"
    by (simp add: books_seed_def)
  have t: "JStr ''P&P Rev.'' = JStr ''P&P Rev.'' \<and> ''P&P Rev.'' \<noteq> []"
    by simp
  from h t put_book_spec [of books_seed "''2''" "JStr ''P&P Rev.''" JUndefined]
  have "\<exists>k b'. k < length books_seed \<and> book_id (books_seed ! k) = ''2'' \<and>
      put_book ''2'' (JStr ''P&P Rev.'') JUndefined books_seed =
        (\<lparr>status = 200, body = Json_book b'\<rparr>, books_seed[k := b']) \<and>
      title b' = JStr ''P&P Rev.'' \<and> author b' = author (books_seed ! k)"
    by blast
  moreover from n put_book_spec [of books_seed "''7''" "JStr ''P&P Rev.''" JUndefined]
  have "put_book ''7'' (JStr ''P&P Rev.'') JUndefined books_seed =
     (\<lparr>status = 404, body = Json_message ''Book not found''\<rparr>, books_seed)"
    by blast
  ultimately show ?thesis using h n by blast
qed

text \<open>
  Claim C9. When \<open>PUT /books/:id\<close> succeeds (status 200), it touches one record,
  the first whose id is the requested one: the registry keeps its length, that
  record keeps its id, the record at every other position is the one that was
  there, and so the ids appear in the same order as before.
\<close>

theorem put_book_frame:
  "status (fst (put_book i ttl auth books)) = 200 \<Longrightarrow>
   \<exists>k < length books.
     book_id (books ! k) = i \<and> (\<forall>j < k. book_id (books ! j) \<noteq> i) \<and>
     length (snd (put_book i ttl auth books)) = length books \<and>
     book_id (snd (put_book i ttl auth books) ! k) = book_id (books ! k) \<and>
     (\<forall>j < length books. j \<noteq> k \<longrightarrow> snd (put_book i ttl auth books) ! j = books ! j) \<and>
     map book_id (snd (put_book i ttl auth books)) = map book_id books"
proof -
  assume ok: "status (fst (put_book i ttl auth books)) = 200"
  have "\<exists>b \<in> set books. book_id b = i"
  proof (rule ccontr)
    assume "\<not> (\<exists>b \<in> set books. book_id b = i)"
    then have "\<forall>b \<in> set books. book_id b \<noteq> i" by simp
    from put_book_missing [OF this] ok show False
      by (simp add: not_found_def)
  qed
  then obtain k where k: "k < length books" "book_id (books ! k) = i"
    "\<forall>j < k. book_id (books ! j) \<noteq> i"
    and put: "put_book i ttl auth books =
          (\<lparr>status = 200,
             body = Json_book ((books ! k)\<lparr>title := js_or ttl (title (books ! k)),
                                          author := js_or auth (author (books ! k))\<rparr>)\<rparr>,
           books[k := (books ! k)\<lparr>title := js_or ttl (title (books ! k)),
                                  author := js_or auth (author (books ! k))\<rparr>])"
    by (rule put_book_found)
  have "map book_id (snd (put_book i ttl auth books)) = map book_id books"
    using k(1) by (simp add: put map_update_same)
  with k show ?thesis
    by (auto simp: put)
qed

theorem put_book_frame_witness:
  "status (fst (put_book ''2'' (JStr ''P&P Rev.'') JUndefined books_seed)) = 200 \<and>
   (\<exists>k < length books_seed.
     book_id (books_seed ! k) = ''2'' \<and> (\<forall>j < k. book_id (books_seed ! j) \<noteq> ''2'') \<and>
     length (snd (put_book ''2'' (JStr ''P&P Rev.'') JUndefined books_seed)) = length books_seed \<and>
     book_id (snd (put_book ''2'' (JStr ''P&P Rev.'') JUndefined books_seed) ! k) =
       book_id (books_seed ! k) \<and>
     (\<forall>j < length books_seed. j \<noteq> k \<longrightarrow>
        snd (put_book ''2'' (JStr ''P&P Rev.'') JUndefined books_seed) ! j = books_seed ! j) \<and>
     map book_id (snd (put_book ''2'' (JStr ''P&P Rev.'') JUndefined books_seed)) =
       map book_id books_seed)"
proof -
  have h: "status (fst (put_book ''2'' (JStr ''P&P Rev.'') JUndefined books_seed)) = 200"
    by (simp add: put_book_def books_seed_def Let_def)
  from h put_book_frame [OF h] show ?thesis by (rule conjI)
qed

subsection \<open>Creating, then reading\<close>

text \<open>
  Claim C1 says that after a successful \<open>POST /books\<close>, reading the returned id
  gives back a book with the posted title and author. \<open>GET\<close> takes the first
  record with the id, and nothing keeps \<open>generateUniqueId\<close> from drawing an id
  that is in use. Here two requests draw 0.5, whose base-36 text is \<open>0.i\<close>: the
  second one is answered 201 with the book \<open>Emma\<close> under the id \<open>i\<close>, and
  reading \<open>i\<close> afterwards gives the book \<open>Dune\<close> of the first request.
\<close>

theorem post_then_get_counterexample:
  "fst (post_book ''0.i'' (JStr ''Emma'') (JStr ''Austen'')
          (run [Post_book ''0.i'' (JStr ''Dune'') (JStr ''Herbert'')] books_seed)) =
     \<lparr>status = 201,
      body = Json_book \<lparr>book_id = ''i'', title = JStr ''Emma'', author = JStr ''Austen''\<rparr>\<rparr> \<and>
   fst (get_book ''i''
          (snd (post_book ''0.i'' (JStr ''Emma'') (JStr ''Austen'')
                  (run [Post_book ''0.i'' (JStr ''Dune'') (JStr ''Herbert'')] books_seed)))) =
     \<lparr>status = 200,
      body = Json_book \<lparr>book_id = ''i'', title = JStr ''Dune'', author = JStr ''Herbert''\<rparr>\<rparr>"
  by (simp add: post_book_def get_book_def generateUniqueId_def books_seed_def Let_def)

text \<open>
  Claim C1, amended. For a non-empty title and a non-empty author, \<open>POST /books\<close>
  answers 201 with the new book; when the id drawn for it is carried by no record
  already in the registry, \<open>GET /books/:id\<close> with that id on the resulting
  registry answers 200 with that same book, so with exactly the posted title and
  author.
\<close>

theorem post_then_get:
  "t \<noteq> [] \<Longrightarrow> a \<noteq> [] \<Longrightarrow> generateUniqueId random36 \<notin> set (map book_id books) \<Longrightarrow>
   fst (post_book random36 (JStr t) (JStr a) books) =
     \<lparr>status = 201,
      body = Json_book \<lparr>book_id = generateUniqueId random36, title = JStr t, author = JStr a\<rparr>\<rparr> \<and>
   fst (get_book (generateUniqueId random36) (snd (post_book random36 (JStr t) (JStr a) books))) =
     \<lparr>status = 200,
      body = Json_book \<lparr>book_id = generateUniqueId random36, title = JStr t, author = JStr a\<rparr>\<rparr>"
proof -
  assume t: "t \<noteq> []" and a: "a \<noteq> []"
    and fresh: "generateUniqueId random36 \<notin> set (map book_id books)"
  let ?nb = "\<lparr>book_id = generateUniqueId random36, title = JStr t, author = JStr a\<rparr>"
  from t a have post: "post_book random36 (JStr t) (JStr a) books =
      (\<lparr>status = 201, body = Json_book ?nb\<rparr>, books @ [?nb])"
    by (simp add: post_book_def Let_def)
  from fresh have "\<forall>x \<in> set books. \<not> book_id x = generateUniqueId random36"
    by (metis imageI set_map)
  then have "List.find (\<lambda>b. book_id b = generateUniqueId random36) (books @ [?nb]) = Some ?nb"
    by (rule find_snoc) simp
  then show ?thesis
    by (simp add: post get_book_def)
qed

theorem post_then_get_witness:
  "''Dune'' \<noteq> [] \<and> ''Herbert'' \<noteq> [] \<and>
   generateUniqueId ''0.4fzyo82mvyr'' \<notin> set (map book_id books_seed) \<and>
   fst (post_book ''0.4fzyo82mvyr'' (JStr ''Dune'') (JStr ''Herbert'') books_seed) =
     \<lparr>status = 201,
      body = Json_book \<lparr>book_id = ''4fzyo82mv'', title = JStr ''Dune'', author = JStr ''Herbert''\<rparr>\<rparr> \<and>
   fst (get_book ''4fzyo82mv''
         (snd (post_book ''0.4fzyo82mvyr'' (JStr ''Dune'') (JStr ''Herbert'') books_seed))) =
     \<lparr>status = 200,
      body = Json_book \<lparr>book_id = ''4fzyo82mv'', title = JStr ''Dune'', author = JStr ''Herbert''\<rparr>\<rparr>"
proof -
  have t: "''Dune'' \<noteq> []" and a: "''Herbert'' \<noteq> []"
    by simp_all
  have f: "generateUniqueId ''0.4fzyo82mvyr'' \<notin> set (map book_id books_seed)"
    by (simp add: generateUniqueId_def books_seed_def)
  have g: "generateUniqueId ''0.4fzyo82mvyr'' = ''4fzyo82mv''"
    by (simp add: generateUniqueId_def)
  from post_then_get [OF t a f] t a f show ?thesis
    unfolding g by simp
qed

subsection \<open>Deleting a book\<close>

text \<open>
  Claim C5 says that a successful delete shrinks the registry by exactly one.
  \<open>filter\<close> drops every record with the id. After two \<open>POST\<close> requests that
  both drew the id \<open>i\<close> the registry has five records, and \<open>DELETE /books/i\<close>
  answers 204 and leaves three.
\<close>

theorem delete_book_counterexample:
  "fst (delete_book ''i''
          (run [Post_book ''0.i'' (JStr ''Dune'') (JStr ''Herbert''),
                Post_book ''0.i'' (JStr ''Emma'') (JStr ''Austen'')] books_seed)) =
     \<lparr>status = 204, body = No_body\<rparr> \<and>
   length (run [Post_book ''0.i'' (JStr ''Dune'') (JStr ''Herbert''),
                Post_book ''0.i'' (JStr ''Emma'') (JStr ''Austen'')] books_seed) = 5 \<and>
   length (snd (delete_book ''i''
          (run [Post_book ''0.i'' (JStr ''Dune'') (JStr ''Herbert''),
                Post_book ''0.i'' (JStr ''Emma'') (JStr ''Austen'')] books_seed))) = 3"
  by (simp add: delete_book_def post_book_def generateUniqueId_def books_seed_def Let_def)

text \<open>
  Claim C5, amended. \<open>DELETE /books/:id\<close> answers 404 \<open>Book not found\<close> and
  leaves the registry as it was when no record carries the id. When some record
  does, it answers 204 with no body and the registry afterwards is the old one
  without the records of that id, the others in their old order: no record with
  the id is left, the registry is shorter by the number of records that carried the
  id, and shorter by exactly one when the ids of the registry were unique.
\<close>

theorem delete_book_spec:
  "((\<forall>b \<in> set books. book_id b \<noteq> i) \<longrightarrow>
      delete_book i books =
        (\<lparr>status = 404, body = Json_message ''Book not found''\<rparr>, books)) \<and>
   ((\<exists>b \<in> set books. book_id b = i) \<longrightarrow>
      fst (delete_book i books) = \<lparr>status = 204, body = No_body\<rparr> \<and>
      snd (delete_book i books) = filter (\<lambda>b. book_id b \<noteq> i) books \<and>
      (\<forall>b \<in> set (snd (delete_book i books)). book_id b \<noteq> i) \<and>
      length (snd (delete_book i books)) + length (filter (\<lambda>b. book_id b = i) books) =
        length books \<and>
      (distinct (map book_id books) \<longrightarrow>
         length (snd (delete_book i books)) + 1 = length books))"
proof (intro conjI impI)
  assume "\<forall>b \<in> set books. book_id b \<noteq> i"
  then show "delete_book i books =
        (\<lparr>status = 404, body = Json_message ''Book not found''\<rparr>, books)"
    by (simp add: delete_book_eq not_found_def)
next
  assume ex: "\<exists>b \<in> set books. book_id b = i"
  then have eq: "delete_book i books =
      (\<lparr>status = 204, body = No_body\<rparr>, filter (\<lambda>bk. book_id bk \<noteq> i) books)"
    by (simp add: delete_book_eq)
  show "fst (delete_book i books) = \<lparr>status = 204, body = No_body\<rparr>"
    by (simp add: eq)
  show "snd (delete_book i books) = filter (\<lambda>b. book_id b \<noteq> i) books"
    by (simp add: eq)
  show "\<forall>b \<in> set (snd (delete_book i books)). book_id b \<noteq> i"
    by (simp add: eq)
  show split: "length (snd (delete_book i books)) + length (filter (\<lambda>b. book_id b = i) books) =
        length books"
    using length_filter_split [of "\<lambda>b. book_id b = i" books] by (simp add: eq)
  assume d: "distinct (map book_id books)"
  from ex obtain b where "b \<in> set books" "book_id b = i" by blast
  with distinct_count_one [OF d, of b]
  have "length (filter (\<lambda>y. book_id y = i) books) = 1" by simp
  with split show "length (snd (delete_book i books)) + 1 = length books" by simp
qed

theorem delete_book_spec_witness:
  "\<not> (\<exists>b \<in> set books_seed. book_id b = ''7'') \<and>
   delete_book ''7'' books_seed =
     (\<lparr>status = 404, body = Json_message ''Book not found''\<rparr>, books_seed) \<and>
   (\<exists>b \<in> set books_seed. book_id b = ''3'') \<and> distinct (map book_id books_seed) \<and>
   fst (delete_book ''3'' books_seed) = \<lparr>status = 204, body = No_body\<rparr> \<and>
   \<not> (\<exists>b \<in> set (snd (delete_book ''3'' books_seed)). book_id b = ''3'') \<and>
   length (snd (delete_book ''3'' books_seed)) + 1 = length books_seed"
proof -
  have n: "\<forall>b \<in> set books_seed. book_id b \<noteq> ''7''"
    by (simp add: books_seed_def)
  have h: "\<exists>b \<in> set books_seed. book_id b = ''3''"
    by (simp add: books_seed_def)
  have d: "distinct (map book_id books_seed)"
    by (simp add: books_seed_def)
  from n h d delete_book_spec [of books_seed "''7''"] delete_book_spec [of books_seed "''3''"]
  show ?thesis by blast
qed

subsection \<open>The registry over a run\<close>

text \<open>
  Claim C3 says that ids are unique in every registry reachable from the seed.
  \<open>generateUniqueId\<close> keeps nine characters of a random draw and no handler
  compares the result with the ids in use: two \<open>POST\<close> requests whose draws are
  both 0.5 (\<open>0.i\<close> in base 36) leave two records with the id \<open>i\<close>.
\<close>

theorem registry_invariant_counterexample:
  "\<not> distinct (map book_id
        (run [Post_book ''0.i'' (JStr ''Dune'') (JStr ''Herbert''),
              Post_book ''0.i'' (JStr ''Emma'') (JStr ''Austen'')] books_seed))"
  by (simp add: post_book_def generateUniqueId_def books_seed_def Let_def)

text \<open>
  Claim C3, amended. Start from the seed and serve any sequence of requests. If each
  \<open>POST\<close> that passes validation draws an id that no record carries at that
  moment, the ids of the resulting registry are pairwise different. And in every
  case the title and the author of every record are truthy values, so neither is
  the empty string (nor missing).
\<close>

theorem registry_invariant:
  "(ids_fresh rs books_seed \<longrightarrow> distinct (map book_id (run rs books_seed))) \<and>
   (\<forall>b \<in> set (run rs books_seed).
      truthy (title b) \<and> truthy (author b) \<and> title b \<noteq> JStr [] \<and> author b \<noteq> JStr [])"
proof
  have "distinct (map book_id books_seed)"
    by (simp add: books_seed_def)
  then show "ids_fresh rs books_seed \<longrightarrow> distinct (map book_id (run rs books_seed))"
    by (simp add: run_keeps_distinct)
next
  have "\<forall>b \<in> set books_seed. truthy (title b) \<and> truthy (author b)"
    by (simp add: books_seed_def)
  then have *: "\<forall>b \<in> set (run rs books_seed). truthy (title b) \<and> truthy (author b)"
    by (rule run_keeps_truthy)
  show "\<forall>b \<in> set (run rs books_seed).
      truthy (title b) \<and> truthy (author b) \<and> title b \<noteq> JStr [] \<and> author b \<noteq> JStr []"
  proof
    fix b
    assume "b \<in> set (run rs books_seed)"
    with * have "truthy (title b)" "truthy (author b)" by simp_all
    then show "truthy (title b) \<and> truthy (author b) \<and> title b \<noteq> JStr [] \<and> author b \<noteq> JStr []"
      by auto
  qed
qed

theorem registry_invariant_witness:
  "ids_fresh [Post_book ''0.4fzyo82mvyr'' (JStr ''Dune'') (JStr ''Herbert''),
              Put_book ''2'' (JStr ''P&P Rev.'') JUndefined,
              Delete_book ''3''] books_seed \<and>
   distinct (map book_id
     (run [Post_book ''0.4fzyo82mvyr'' (JStr ''Dune'') (JStr ''Herbert''),
           Put_book ''2'' (JStr ''P&P Rev.'') JUndefined,
           Delete_book ''3''] books_seed)) \<and>
   list_all (\<lambda>b. truthy (title b) \<and> truthy (author b) \<and> title b \<noteq> JStr [] \<and> author b \<noteq> JStr [])
     (run [Post_book ''0.4fzyo82mvyr'' (JStr ''Dune'') (JStr ''Herbert''),
           Put_book ''2'' (JStr ''P&P Rev.'') JUndefined,
           Delete_book ''3''] books_seed)"
proof -
  have h: "ids_fresh [Post_book ''0.4fzyo82mvyr'' (JStr ''Dune'') (JStr ''Herbert''),
              Put_book ''2'' (JStr ''P&P Rev.'') JUndefined,
              Delete_book ''3''] books_seed"
    by (simp add: post_book_def put_book_def generateUniqueId_def books_seed_def Let_def)
  from h registry_invariant [of "[Post_book ''0.4fzyo82mvyr'' (JStr ''Dune'') (JStr ''Herbert''),
              Put_book ''2'' (JStr ''P&P Rev.'') JUndefined,
              Delete_book ''3'']"]
  show ?thesis unfolding list_all_iff by blast
qed

subsection \<open>Records that share an id\<close>

text \<open>
  Claim C10. In a registry where several records carry the id \<open>i\<close>:
  \<open>DELETE /books/i\<close> leaves the registry without any of them (so shorter by their
  number, which is at least two); \<open>GET /books/i\<close> answers with the first of them;
  and \<open>PUT /books/i\<close> rewrites the first of them only, every other position
  (the later records with the id included) keeping its record.
\<close>

theorem shared_id_behaviour:
  "1 < length (filter (\<lambda>b. book_id b = i) books) \<Longrightarrow>
   snd (delete_book i books) = filter (\<lambda>b. book_id b \<noteq> i) books \<and>
   (\<forall>b \<in> set (snd (delete_book i books)). book_id b \<noteq> i) \<and>
   length (snd (delete_book i books)) + length (filter (\<lambda>b. book_id b = i) books) =
     length books \<and>
   length (snd (delete_book i books)) + 2 \<le> length books \<and>
   (\<exists>k < length books.
      book_id (books ! k) = i \<and> (\<forall>j < k. book_id (books ! j) \<noteq> i) \<and>
      fst (get_book i books) = \<lparr>status = 200, body = Json_book (books ! k)\<rparr> \<and>
      snd (put_book i ttl auth books) =
        books[k := (books ! k)\<lparr>title := js_or ttl (title (books ! k)),
                               author := js_or auth (author (books ! k))\<rparr>] \<and>
      (\<forall>j < length books. j \<noteq> k \<longrightarrow> snd (put_book i ttl auth books) ! j = books ! j))"
proof -
  assume several: "1 < length (filter (\<lambda>b. book_id b = i) books)"
  then have "filter (\<lambda>b. book_id b = i) books \<noteq> []" by auto
  then have ex: "\<exists>b \<in> set books. book_id b = i"
    by (simp add: filter_empty_conv)
  then have del: "snd (delete_book i books) = filter (\<lambda>b. book_id b \<noteq> i) books"
    by (simp add: delete_book_eq)
  have none: "\<forall>b \<in> set (snd (delete_book i books)). book_id b \<noteq> i"
    by (simp add: del)
  have split: "length (snd (delete_book i books)) + length (filter (\<lambda>b. book_id b = i) books) =
     length books"
    using length_filter_split [of "\<lambda>b. book_id b = i" books] by (simp add: del)
  from split several have two: "length (snd (delete_book i books)) + 2 \<le> length books"
    by arith
  from ex obtain k where k: "k < length books" "book_id (books ! k) = i"
    "\<forall>j < k. book_id (books ! j) \<noteq> i"
    and put: "put_book i ttl auth books =
          (\<lparr>status = 200,
             body = Json_book ((books ! k)\<lparr>title := js_or ttl (title (books ! k)),
                                          author := js_or auth (author (books ! k))\<rparr>)\<rparr>,
           books[k := (books ! k)\<lparr>title := js_or ttl (title (books ! k)),
                                  author := js_or auth (author (books ! k))\<rparr>])"
    by (rule put_book_found)
  from get_book_first [OF k]
  have get: "fst (get_book i books) = \<lparr>status = 200, body = Json_book (books ! k)\<rparr>"
    by simp
  have others: "\<forall>j < length books. j \<noteq> k \<longrightarrow> snd (put_book i ttl auth books) ! j = books ! j"
    by (simp add: put)
  from k get others put have "\<exists>k < length books.
      book_id (books ! k) = i \<and> (\<forall>j < k. book_id (books ! j) \<noteq> i) \<and>
      fst (get_book i books) = \<lparr>status = 200, body = Json_book (books ! k)\<rparr> \<and>
      snd (put_book i ttl auth books) =
        books[k := (books ! k)\<lparr>title := js_or ttl (title (books ! k)),
                               author := js_or auth (author (books ! k))\<rparr>] \<and>
      (\<forall>j < length books. j \<noteq> k \<longrightarrow> snd (put_book i ttl auth books) ! j = books ! j)"
    by auto
  with del none split two show ?thesis by blast
qed

theorem shared_id_behaviour_witness:
  "1 < length (filter (\<lambda>b. book_id b = ''i'')
         (run [Post_book ''0.i'' (JStr ''Dune'') (JStr ''Herbert''),
               Post_book ''0.i'' (JStr ''Emma'') (JStr ''Austen'')] books_seed)) \<and>
   length (snd (delete_book ''i''
         (run [Post_book ''0.i'' (JStr ''Dune'') (JStr ''Herbert''),
               Post_book ''0.i'' (JStr ''Emma'') (JStr ''Austen'')] books_seed))) + 2
     \<le> length (run [Post_book ''0.i'' (JStr ''Dune'') (JStr ''Herbert''),
               Post_book ''0.i'' (JStr ''Emma'') (JStr ''Austen'')] books_seed) \<and>
   \<not> (\<exists>b \<in> set (snd (delete_book ''i''
         (run [Post_book ''0.i'' (JStr ''Dune'') (JStr ''Herbert''),
               Post_book ''0.i'' (JStr ''Emma'') (JStr ''Austen'')] books_seed))).
      book_id b = ''i'')"
proof -
  have h: "1 < length (filter (\<lambda>b. book_id b = ''i'')
         (run [Post_book ''0.i'' (JStr ''Dune'') (JStr ''Herbert''),
               Post_book ''0.i'' (JStr ''Emma'') (JStr ''Austen'')] books_seed))"
    by (simp add: post_book_def generateUniqueId_def books_seed_def Let_def)
  from h shared_id_behaviour [OF h] show ?thesis by blast
qed

end
